theory Spec2Isabelle
  imports Main "HOL-Library.Sublist"
begin

section \<open>Text\<close>

text \<open>
  A Python \<^verbatim>\<open>str\<close> is a sequence of Unicode code points, and \<^verbatim>\<open>len\<close> and slicing
  count code points. The headings of \<^verbatim>\<open>backend/main.py\<close> contain emoji above U+00FF,
  so a text is a list of code points (natural numbers), not a list of bytes.
\<close>

type_synonym codepoint = nat
type_synonym ustr = "codepoint list"

definition ascii :: "string \<Rightarrow> ustr" where
  "ascii s = map of_char s"

definition nl :: codepoint where
  "nl = 10"

text \<open>
  \<^verbatim>\<open>str.isspace\<close> for one character: the code points CPython classifies as whitespace
  (U+0009..U+000D, U+001C..U+0020, U+0085, U+00A0, U+1680, U+2000..U+200A, U+2028,
  U+2029, U+202F, U+205F, U+3000).
\<close>

definition isspace :: "codepoint \<Rightarrow> bool" where
  "isspace c \<longleftrightarrow>
     (9 \<le> c \<and> c \<le> 13) \<or> (28 \<le> c \<and> c \<le> 32) \<or> c = 133 \<or> c = 160 \<or> c = 5760 \<or>
     (8192 \<le> c \<and> c \<le> 8202) \<or> c = 8232 \<or> c = 8233 \<or> c = 8239 \<or> c = 8287 \<or> c = 12288"

text \<open>\<^verbatim>\<open>s.strip()\<close>: leading and trailing whitespace removed.\<close>

definition strip :: "ustr \<Rightarrow> ustr" where
  "strip s = rev (dropWhile isspace (rev (dropWhile isspace s)))"

section \<open>The regular expressions of the extractor\<close>

text \<open>
  Every \<^verbatim>\<open>re.search\<close> of the source has the shape
  \<^verbatim>\<open>literal rest\<close>: the engine tries the start positions from left to right, and at a
  position where the literal matches it runs the rest of the pattern on what follows
  the literal; if the rest fails there, the search goes on at the next position.
\<close>

fun re_search :: "ustr \<Rightarrow> (ustr \<Rightarrow> 'a option) \<Rightarrow> ustr \<Rightarrow> 'a option" where
  "re_search lit rest [] = (if lit = [] then rest [] else None)"
| "re_search lit rest (c # cs) =
     (if prefix lit (c # cs)
      then (case rest (drop (length lit) (c # cs)) of
              Some g \<Rightarrow> Some g
            | None \<Rightarrow> re_search lit rest cs)
      else re_search lit rest cs)"

text \<open>
  \<^verbatim>\<open>(.*?)(?=L)\<close> under \<^verbatim>\<open>re.DOTALL\<close>: the group grows one character at a time (any
  character, newlines too) until the lookahead \<open>L\<close> holds at the current position; the
  match fails when the text ends first. The result is the group.
\<close>

fun lazy_until :: "(ustr \<Rightarrow> bool) \<Rightarrow> ustr \<Rightarrow> ustr option" where
  "lazy_until la [] = (if la [] then Some [] else None)"
| "lazy_until la (c # cs) =
     (if la (c # cs) then Some [] else map_option ((#) c) (lazy_until la cs))"

text \<open>
  \<^verbatim>\<open>.*?\n\<close> under \<^verbatim>\<open>re.DOTALL\<close>, followed by the rest of the pattern: characters are
  skipped lazily up to a newline after which the rest matches.
\<close>

fun lazy_then_nl :: "(ustr \<Rightarrow> 'a option) \<Rightarrow> ustr \<Rightarrow> 'a option" where
  "lazy_then_nl rest [] = None"
| "lazy_then_nl rest (c # cs) =
     (if c = nl
      then (case rest cs of Some g \<Rightarrow> Some g | None \<Rightarrow> lazy_then_nl rest cs)
      else lazy_then_nl rest cs)"

text \<open>
  \<^verbatim>\<open>$\<close> without \<^verbatim>\<open>re.MULTILINE\<close> matches at the end of the text and just before a
  newline that is the last character of the text.
\<close>

definition at_dollar :: "ustr \<Rightarrow> bool" where
  "at_dollar s \<longleftrightarrow> s = [] \<or> s = [nl]"

text \<open>
  The lookaheads. In the raw string \<^verbatim>\<open>r'...(?=## |---|\\Z)'\<close> the last alternative is
  an escaped backslash followed by the letter Z, so it matches the two characters
  backslash (92) and Z (90) and not the end of the text.
\<close>

definition backslash_Z :: ustr where
  "backslash_Z = [92, 90]"

definition la_heading_sp :: "ustr \<Rightarrow> bool" where
  "la_heading_sp s \<longleftrightarrow>
     prefix (ascii ''## '') s \<or> prefix (ascii ''---'') s \<or> prefix backslash_Z s"

definition la_heading :: "ustr \<Rightarrow> bool" where
  "la_heading s \<longleftrightarrow>
     prefix (ascii ''##'') s \<or> prefix (ascii ''---'') s \<or> prefix backslash_Z s"

definition la_markdown :: "ustr \<Rightarrow> bool" where
  "la_markdown s \<longleftrightarrow>
     prefix (ascii ''## '' @ [128279]) s \<or> prefix (ascii ''---SEPARATOR---'') s \<or> at_dollar s"

definition la_openapi :: "ustr \<Rightarrow> bool" where
  "la_openapi s \<longleftrightarrow>
     prefix (ascii ''## '' @ [128187]) s \<or> prefix (ascii ''---SEPARATOR---'') s \<or> at_dollar s"

text \<open>
  \<^verbatim>\<open>re.findall(r'- (P.*?)(?:\n|$)', s)\<close> with a literal \<open>P\<close> and no flags: at the
  leftmost position where \<^verbatim>\<open>- P\<close> matches, the group is \<open>P\<close> and the characters after it
  up to the next newline (which \<^verbatim>\<open>.\<close> cannot cross) or the end of the text; the newline
  is consumed and the scan resumes behind it. The bullet is not anchored to the
  beginning of a line.
\<close>

function findall_bullets :: "ustr \<Rightarrow> ustr \<Rightarrow> ustr list" where
  "findall_bullets p [] = []"
| "findall_bullets p (c # cs) =
     (if prefix (ascii ''- '' @ p) (c # cs)
      then (p @ takeWhile (\<lambda>x. x \<noteq> nl) (drop (2 + length p) (c # cs)))
           # findall_bullets p (drop 1 (dropWhile (\<lambda>x. x \<noteq> nl) (drop (2 + length p) (c # cs))))
      else findall_bullets p cs)"
  by pat_completeness auto
termination
proof (relation "measure (\<lambda>(p, s). length s)")
  fix p :: ustr and c :: codepoint and cs :: ustr
  have "length (dropWhile (\<lambda>x. x \<noteq> nl) (drop (2 + length p) (c # cs)))
          \<le> length (drop (2 + length p) (c # cs))"
    by (rule length_dropWhile_le)
  then show "((p, drop 1 (dropWhile (\<lambda>x. x \<noteq> nl) (drop (2 + length p) (c # cs)))), (p, c # cs))
          \<in> measure (\<lambda>(p, s). length s)"
    by simp
qed simp_all

section \<open>The PRD pipeline\<close>

record PRDRequest =
  feature_idea :: ustr
  target_audience :: ustr
  problem_statement :: ustr

record PRDResponse =
  prd_document :: ustr
  user_stories :: "ustr list"
  success_metrics :: "ustr list"
  timeline :: ustr
  risks :: "ustr list"

definition hdr_user_stories :: ustr where
  "hdr_user_stories = ascii ''## '' @ [128100] @ ascii '' User Stories''"

definition hdr_success_metrics :: ustr where
  "hdr_success_metrics = ascii ''## '' @ [128202] @ ascii '' Success Metrics''"

definition hdr_timeline :: ustr where
  "hdr_timeline = ascii ''## '' @ [9201, 65039] @ ascii '' Timeline'' @ [nl]"

definition hdr_risks :: ustr where
  "hdr_risks = ascii ''## '' @ [9888, 65039] @ ascii '' Risks''"

text \<open>The four \<^verbatim>\<open>re.search\<close> calls of \<^verbatim>\<open>generate_prd\<close>; the result is \<^verbatim>\<open>group(1)\<close>.\<close>

definition stories_match :: "ustr \<Rightarrow> ustr option" where
  "stories_match response_text = re_search hdr_user_stories (lazy_until la_heading_sp) response_text"

definition metrics_match :: "ustr \<Rightarrow> ustr option" where
  "metrics_match response_text = re_search hdr_success_metrics (lazy_until la_heading_sp) response_text"

definition timeline_match :: "ustr \<Rightarrow> ustr option" where
  "timeline_match response_text = re_search hdr_timeline (lazy_until la_heading) response_text"

definition risks_match :: "ustr \<Rightarrow> ustr option" where
  "risks_match response_text = re_search hdr_risks (lazy_until la_heading) response_text"

text \<open>\<^verbatim>\<open>[s.strip() for s in items if s.strip()]\<close>\<close>

definition strip_nonempty :: "ustr list \<Rightarrow> ustr list" where
  "strip_nonempty items = map strip (filter (\<lambda>s. strip s \<noteq> []) items)"

text \<open>The local variables of \<^verbatim>\<open>generate_prd\<close> after the section parsing.\<close>

definition parsed_user_stories :: "ustr \<Rightarrow> ustr list" where
  "parsed_user_stories response_text =
     (case stories_match response_text of
        None \<Rightarrow> []
      | Some stories_text \<Rightarrow> strip_nonempty (findall_bullets (ascii ''As a'') stories_text))"

definition parsed_success_metrics :: "ustr \<Rightarrow> ustr list" where
  "parsed_success_metrics response_text =
     (case metrics_match response_text of
        None \<Rightarrow> []
      | Some metrics_text \<Rightarrow> strip_nonempty (findall_bullets [] metrics_text))"

definition parsed_timeline :: "ustr \<Rightarrow> ustr" where
  "parsed_timeline response_text =
     (case timeline_match response_text of
        None \<Rightarrow> ascii ''2-4 weeks''
      | Some body \<Rightarrow> strip body)"

definition parsed_risks :: "ustr \<Rightarrow> ustr list" where
  "parsed_risks response_text =
     (case risks_match response_text of
        None \<Rightarrow> []
      | Some risks_text \<Rightarrow> strip_nonempty (findall_bullets [] risks_text))"

definition default_user_stories :: "ustr list" where
  "default_user_stories = [ascii ''As a user, I want this feature so I can achieve my goals'']"

definition default_success_metrics :: "ustr list" where
  "default_success_metrics = [ascii ''Adoption rate'', ascii ''User engagement'', ascii ''Time saved'']"

definition default_risks :: "ustr list" where
  "default_risks = [ascii ''Technical complexity'', ascii ''User adoption'', ascii ''Timeline risk'']"

text \<open>\<^verbatim>\<open>xs[:5] if xs else default\<close>\<close>

definition first5_or :: "ustr list \<Rightarrow> ustr list \<Rightarrow> ustr list" where
  "first5_or xs dflt = (if xs \<noteq> [] then take 5 xs else dflt)"

text \<open>The \<^verbatim>\<open>PRDResponse(...)\<close> that \<^verbatim>\<open>generate_prd\<close> returns for a completion text.\<close>

definition prd_response :: "ustr \<Rightarrow> PRDResponse" where
  "prd_response response_text =
     \<lparr> prd_document = response_text,
       user_stories = first5_or (parsed_user_stories response_text) default_user_stories,
       success_metrics = first5_or (parsed_success_metrics response_text) default_success_metrics,
       timeline = parsed_timeline response_text,
       risks = first5_or (parsed_risks response_text) default_risks \<rparr>"

section \<open>The API documentation pipeline\<close>

record APIDocRequest =
  code :: ustr
  language :: ustr
  project_name :: ustr

text \<open>
  An entry of \<^verbatim>\<open>code_examples\<close> is a dict with the keys \<^verbatim>\<open>"language"\<close> and
  \<^verbatim>\<open>"code"\<close>, in this order: an association list.
\<close>

type_synonym code_example = "(string \<times> ustr) list"

record APIDocResponse =
  openapi_spec :: ustr
  markdown_docs :: ustr
  code_examples :: "code_example list"

definition hdr_api_documentation :: ustr where
  "hdr_api_documentation = ascii ''## '' @ [128218] @ ascii '' API Documentation''"

definition hdr_openapi_spec :: ustr where
  "hdr_openapi_spec = ascii ''## '' @ [128279] @ ascii '' OpenAPI Spec'' @ [nl]"

definition hdr_code_examples :: ustr where
  "hdr_code_examples = ascii ''## '' @ [128187] @ ascii '' Code Examples'' @ [nl]"

text \<open>The three \<^verbatim>\<open>re.search\<close> calls of \<^verbatim>\<open>generate_api_docs\<close>; the result is \<^verbatim>\<open>group(1)\<close>.\<close>

definition markdown_match :: "ustr \<Rightarrow> ustr option" where
  "markdown_match response_text =
     re_search hdr_api_documentation (lazy_then_nl (lazy_until la_markdown)) response_text"

definition openapi_match :: "ustr \<Rightarrow> ustr option" where
  "openapi_match response_text = re_search hdr_openapi_spec (lazy_until la_openapi) response_text"

definition examples_match :: "ustr \<Rightarrow> ustr option" where
  "examples_match response_text = re_search hdr_code_examples (lazy_until at_dollar) response_text"

text \<open>The local variables of \<^verbatim>\<open>generate_api_docs\<close> after the section parsing.\<close>

definition parsed_markdown_docs :: "ustr \<Rightarrow> ustr" where
  "parsed_markdown_docs response_text =
     (case markdown_match response_text of None \<Rightarrow> [] | Some body \<Rightarrow> strip body)"

definition parsed_openapi_spec :: "ustr \<Rightarrow> ustr" where
  "parsed_openapi_spec response_text =
     (case openapi_match response_text of None \<Rightarrow> [] | Some body \<Rightarrow> strip body)"

definition parsed_code_examples :: "ustr \<Rightarrow> ustr \<Rightarrow> code_example list" where
  "parsed_code_examples lang response_text =
     (case examples_match response_text of
        None \<Rightarrow> []
      | Some examples_text \<Rightarrow>
          [ [(''language'', lang), (''code'', take 500 examples_text)],
            [(''language'', ascii ''JavaScript''),
             (''code'', if length examples_text > 500
                        then take 500 (drop 500 examples_text)
                        else examples_text)] ])"

definition default_openapi_spec :: ustr where
  "default_openapi_spec =
     [123, 34] @ ascii ''openapi'' @ [34] @ ascii '': '' @ [34] @ ascii ''3.0.0'' @ [34]
     @ ascii '', '' @ [34] @ ascii ''info'' @ [34] @ ascii '': '' @ [123, 34] @ ascii ''title''
     @ [34] @ ascii '': '' @ [34] @ ascii ''API'' @ [34, 125, 125]"

definition default_markdown_docs :: ustr where
  "default_markdown_docs =
     ascii ''# API Documentation'' @ [nl, nl] @ ascii ''API endpoints and usage information.''"

definition default_code_examples :: "ustr \<Rightarrow> code_example list" where
  "default_code_examples lang = [ [(''language'', lang), (''code'', ascii ''# Example usage'')] ]"

text \<open>The \<^verbatim>\<open>APIDocResponse(...)\<close> that \<^verbatim>\<open>generate_api_docs\<close> returns.\<close>

definition api_response :: "ustr \<Rightarrow> ustr \<Rightarrow> APIDocResponse" where
  "api_response lang response_text =
     \<lparr> openapi_spec =
         (if parsed_openapi_spec response_text \<noteq> []
          then parsed_openapi_spec response_text else default_openapi_spec),
       markdown_docs =
         (if parsed_markdown_docs response_text \<noteq> []
          then parsed_markdown_docs response_text else default_markdown_docs),
       code_examples =
         (if parsed_code_examples lang response_text \<noteq> []
          then parsed_code_examples lang response_text else default_code_examples lang) \<rparr>"

section \<open>The handlers\<close>

text \<open>
  \<^verbatim>\<open>HTTPException(status_code, detail)\<close>. The call of the completion client is the one
  effect of a handler: its outcome is an input of the model, either the exception it
  raised (with its \<^verbatim>\<open>str(e)\<close>) or the text of the first choice. Both handlers raise
  the 400 before the \<^verbatim>\<open>try\<close> block and turn every exception inside it into a 500.
\<close>

datatype http_error = HTTPException nat ustr

datatype completion = Failed ustr | Replied ustr

definition generate_prd :: "completion \<Rightarrow> PRDRequest \<Rightarrow> http_error + PRDResponse" where
  "generate_prd upstream request =
     (if strip (feature_idea request) = []
      then Inl (HTTPException 400 (ascii ''Feature idea cannot be empty''))
      else (case upstream of
              Failed e \<Rightarrow> Inl (HTTPException 500 (ascii ''Error generating PRD: '' @ e))
            | Replied response_text \<Rightarrow> Inr (prd_response response_text)))"

definition generate_api_docs :: "completion \<Rightarrow> APIDocRequest \<Rightarrow> http_error + APIDocResponse" where
  "generate_api_docs upstream request =
     (if strip (code request) = []
      then Inl (HTTPException 400 (ascii ''Code cannot be empty''))
      else (case upstream of
              Failed e \<Rightarrow> Inl (HTTPException 500 (ascii ''Error generating API docs: '' @ e))
            | Replied response_text \<Rightarrow> Inr (api_response (language request) response_text)))"

section \<open>Example texts\<close>

text \<open>
  A reply whose ``API Documentation'' and ``OpenAPI Spec'' sections hold nothing but
  whitespace.
\<close>

definition blank_sections :: ustr where
  "blank_sections = hdr_api_documentation @ ascii '' (Markdown)'' @ [nl] @ ascii ''  '' @ [nl]
     @ hdr_openapi_spec @ ascii '' '' @ [nl, nl] @ hdr_code_examples @ ascii ''print(1)''"

text \<open>A reply with six bullets in each of the three list sections.\<close>

definition six_of_each :: ustr where
  "six_of_each = hdr_user_stories @ [nl]
     @ ascii ''- As a1'' @ [nl] @ ascii ''- As a2'' @ [nl] @ ascii ''- As a3'' @ [nl]
     @ ascii ''- As a4'' @ [nl] @ ascii ''- As a5'' @ [nl] @ ascii ''- As a6'' @ [nl]
     @ hdr_success_metrics @ [nl]
     @ ascii ''- m1'' @ [nl] @ ascii ''- m2'' @ [nl] @ ascii ''- m3'' @ [nl]
     @ ascii ''- m4'' @ [nl] @ ascii ''- m5'' @ [nl] @ ascii ''- m6'' @ [nl]
     @ hdr_risks @ [nl]
     @ ascii ''- r1'' @ [nl] @ ascii ''- r2'' @ [nl] @ ascii ''- r3'' @ [nl]
     @ ascii ''- r4'' @ [nl] @ ascii ''- r5'' @ [nl] @ ascii ''- r6'' @ [nl] @ ascii ''---''"

text \<open>A code-examples block of exactly 400 characters.\<close>

definition block_400 :: ustr where
  "block_400 = replicate 400 (of_char CHR ''x'')"

section \<open>Readings of the specification and example texts\<close>

text \<open>\<^verbatim>\<open>s.split("\n")\<close>: the lines of a text.\<close>

primrec split_lines :: "ustr \<Rightarrow> ustr list" where
  "split_lines [] = [[]]"
| "split_lines (c # cs) =
     (if c = nl then [] # split_lines cs
      else (case split_lines cs of [] \<Rightarrow> [[c]] | l # ls \<Rightarrow> (c # l) # ls))"

text \<open>The first place of a line at which \<open>q\<close> occurs, as the rest of the line from there.\<close>

fun first_at :: "ustr \<Rightarrow> ustr \<Rightarrow> ustr option" where
  "first_at q [] = None"
| "first_at q (c # cs) = (if prefix q (c # cs) then Some (c # cs) else first_at q cs)"

text \<open>
  What one line gives to \<^verbatim>\<open>findall\<close>: nothing when the bullet \<^verbatim>\<open>- P\<close> occurs nowhere in
  the line, and otherwise the line from behind the first such bullet to its end.
\<close>

definition line_bullet :: "ustr \<Rightarrow> ustr \<Rightarrow> ustr list" where
  "line_bullet p l = (case first_at (ascii ''- '' @ p) l of None \<Rightarrow> [] | Some s \<Rightarrow> [drop 2 s])"

text \<open>
  The specification's reading of the user stories of a block: the lines that begin
  with the bullet marker and \<^verbatim>\<open>As a\<close>, without the marker, trimmed, empty ones dropped.
\<close>

definition spec_story_lines :: "ustr \<Rightarrow> ustr list" where
  "spec_story_lines block =
     strip_nonempty (map (drop 2) (filter (prefix (ascii ''- As a'')) (split_lines block)))"

text \<open>The example of the specification: two stories, then the next heading.\<close>

definition story_tester :: ustr where
  "story_tester = ascii ''As a tester, I want coverage so that bugs are caught''"

definition story_user :: ustr where
  "story_user = ascii ''As a user, I want speed so that I save time''"

definition spec_example :: ustr where
  "spec_example = hdr_user_stories @ [nl] @ ascii ''- '' @ story_tester @ [nl]
     @ ascii ''- '' @ story_user @ [nl] @ hdr_success_metrics @ [nl]"

definition spec_example_block :: ustr where
  "spec_example_block = [nl] @ ascii ''- '' @ story_tester @ [nl] @ ascii ''- '' @ story_user @ [nl]"

text \<open>A block whose only bullet stands in the middle of a line.\<close>

definition midline_bullet :: ustr where
  "midline_bullet = hdr_user_stories @ [nl] @ ascii ''Note - As a rule, keep it short'' @ [nl]
     @ ascii ''---''"

text \<open>A reply whose headings are written without the emoji.\<close>

definition undecorated :: ustr where
  "undecorated = ascii ''## User Stories'' @ [nl] @ ascii ''- '' @ story_tester @ [nl]
     @ ascii ''- '' @ story_user @ [nl] @ ascii ''## Timeline'' @ [nl] @ ascii ''3 weeks'' @ [nl]
     @ ascii ''## Success Metrics'' @ [nl] @ ascii ''- Latency'' @ [nl]
     @ ascii ''## Risks'' @ [nl] @ ascii ''- Scope creep'' @ [nl] @ ascii ''---''"

text \<open>A reply that ends with its ``Risks'' section, and one that ends with ``Timeline''.\<close>

definition last_section :: ustr where
  "last_section = hdr_timeline @ ascii ''3 weeks'' @ [nl] @ ascii ''---'' @ [nl]
     @ hdr_risks @ [nl] @ ascii ''- Scope creep'' @ [nl]"

definition timeline_last :: ustr where
  "timeline_last = hdr_timeline @ ascii ''3 weeks''"




section \<open>Auxiliary facts\<close>

lemmas eval_text = ascii_def nl_def isspace_def strip_def at_dollar_def backslash_Z_def

lemmas eval_prd = la_heading_sp_def la_heading_def
  hdr_user_stories_def hdr_success_metrics_def hdr_timeline_def hdr_risks_def
  stories_match_def metrics_match_def timeline_match_def risks_match_def
  strip_nonempty_def parsed_user_stories_def parsed_success_metrics_def parsed_timeline_def
  parsed_risks_def default_user_stories_def default_success_metrics_def default_risks_def
  first5_or_def prd_response_def

lemmas eval_api = la_markdown_def la_openapi_def
  hdr_api_documentation_def hdr_openapi_spec_def hdr_code_examples_def
  markdown_match_def openapi_match_def examples_match_def
  parsed_markdown_docs_def parsed_openapi_spec_def parsed_code_examples_def
  default_openapi_spec_def default_markdown_docs_def default_code_examples_def api_response_def

text \<open>A text strips to the empty text exactly when it is empty or all whitespace.\<close>

lemma strip_eq_Nil_iff: "strip s = [] \<longleftrightarrow> list_all isspace s"
proof
  assume "strip s = []"
  then have "dropWhile isspace s = []"
    unfolding strip_def
    by (metis dropWhile_eq_Nil_conv hd_dropWhile hd_in_set rev_is_Nil_conv set_rev)
  then show "list_all isspace s"
    by (simp add: list_all_iff)
next
  assume "list_all isspace s"
  then have "dropWhile isspace s = []"
    by (simp add: list_all_iff)
  then show "strip s = []"
    by (simp only: strip_def rev.simps dropWhile.simps)
qed




text \<open>A search can only succeed where the literal occurs in the text.\<close>

lemma re_search_sublist: "re_search lit rest t = Some g \<Longrightarrow> sublist lit t"
proof (induction t)
  case Nil
  then show ?case by (simp split: if_splits)
next
  case (Cons c cs)
  show ?case
  proof (cases "prefix lit (c # cs)")
    case True
    then show ?thesis by (rule prefix_imp_sublist)
  next
    case False
    with Cons.prems have "re_search lit rest cs = Some g" by simp
    then have "sublist lit cs" by (rule Cons.IH)
    then show ?thesis by (auto simp: sublist_Cons_right)
  qed
qed

lemma re_search_absent: "\<not> sublist lit t \<Longrightarrow> re_search lit rest t = None"
  by (cases "re_search lit rest t") (auto dest: re_search_sublist)

lemma re_search_here:
  "lit \<noteq> [] \<Longrightarrow> rest s = Some g \<Longrightarrow> re_search lit rest (lit @ s) = Some g"
  by (cases lit) simp_all

lemma lazy_until_dollar_all: "nl \<notin> set s \<Longrightarrow> lazy_until at_dollar s = Some s"
  by (induction s) (auto simp: at_dollar_def)

text \<open>The slice \<^verbatim>\<open>xs[m:m+n]\<close> by positions.\<close>

lemma slice_nth: "take n (drop m xs) = map (nth xs) [m..<min (m + n) (length xs)]"
  by (auto simp: list_eq_iff_nth_eq min_def)

lemma six_stories: "parsed_user_stories six_of_each
    = [ascii ''As a1'', ascii ''As a2'', ascii ''As a3'', ascii ''As a4'', ascii ''As a5'', ascii ''As a6'']"
  by (simp add: six_of_each_def eval_text eval_prd)

lemma six_metrics: "parsed_success_metrics six_of_each
    = [ascii ''m1'', ascii ''m2'', ascii ''m3'', ascii ''m4'', ascii ''m5'', ascii ''m6'']"
  by (simp add: six_of_each_def eval_text eval_prd)

lemma six_risks: "parsed_risks six_of_each
    = [ascii ''r1'', ascii ''r2'', ascii ''r3'', ascii ''r4'', ascii ''r5'', ascii ''r6'']"
  by (simp add: six_of_each_def eval_text eval_prd)

lemma split_lines_nonempty: "split_lines s \<noteq> []"
  by (induction s) (auto split: list.splits)

lemma split_lines_no_nl: "nl \<notin> set l \<Longrightarrow> split_lines l = [l]"
  by (induction l) auto

lemma split_lines_append: "nl \<notin> set l \<Longrightarrow> split_lines (l @ nl # r) = l # split_lines r"
  by (induction l) auto

lemma takeWhile_line: "nl \<notin> set u \<Longrightarrow> takeWhile (\<lambda>x. x \<noteq> nl) u = u"
  by (induction u) auto

lemma dropWhile_line: "nl \<notin> set u \<Longrightarrow> dropWhile (\<lambda>x. x \<noteq> nl) u = []"
  by (induction u) auto

lemma takeWhile_line_nl: "nl \<notin> set u \<Longrightarrow> takeWhile (\<lambda>x. x \<noteq> nl) (u @ nl # r) = u"
  by (induction u) auto

lemma dropWhile_line_nl: "nl \<notin> set u \<Longrightarrow> dropWhile (\<lambda>x. x \<noteq> nl) (u @ nl # r) = nl # r"
  by (induction u) auto

lemma prefix_before_nl:
  assumes "nl \<notin> set q" "nl \<notin> set l"
  shows "prefix q (l @ nl # r) \<longleftrightarrow> prefix q l"
proof
  assume "prefix q (l @ nl # r)"
  then have "prefix q l \<or> (\<exists>us. q = l @ us \<and> prefix us (nl # r))"
    by (simp add: prefix_append)
  then show "prefix q l"
  proof
    assume "prefix q l" then show ?thesis .
  next
    assume "\<exists>us. q = l @ us \<and> prefix us (nl # r)"
    then obtain us where us: "q = l @ us" "prefix us (nl # r)" by blast
    show ?thesis
    proof (cases us)
      case Nil
      with us show ?thesis by simp
    next
      case (Cons a as)
      with us have "a = nl" by simp
      with Cons us assms(1) show ?thesis by simp
    qed
  qed
next
  assume "prefix q l" then show "prefix q (l @ nl # r)" by (rule prefix_prefix)
qed

lemma bullet_no_nl: "nl \<notin> set p \<Longrightarrow> nl \<notin> set (ascii ''- '' @ p)"
  by (simp add: ascii_def nl_def)

lemma bullet_length: "length (ascii ''- '' @ p) = 2 + length p"
  by (simp add: ascii_def)

lemma findall_at_bullet:
  assumes "prefix (ascii ''- '' @ p) s" "drop (2 + length p) s = u"
  shows "findall_bullets p s
           = (p @ takeWhile (\<lambda>x. x \<noteq> nl) u)
             # findall_bullets p (drop 1 (dropWhile (\<lambda>x. x \<noteq> nl) u))"
proof (cases s)
  case Nil
  with assms(1) show ?thesis by (simp add: ascii_def)
next
  case (Cons c cs)
  have "findall_bullets p (c # cs)
          = (p @ takeWhile (\<lambda>x. x \<noteq> nl) (drop (2 + length p) (c # cs)))
            # findall_bullets p (drop 1 (dropWhile (\<lambda>x. x \<noteq> nl) (drop (2 + length p) (c # cs))))"
    using assms(1) Cons by (simp only: findall_bullets.simps if_True)
  with assms(2) Cons show ?thesis by (simp only:)
qed

lemma findall_line:
  assumes "nl \<notin> set p" "nl \<notin> set l"
  shows "findall_bullets p l = line_bullet p l"
  using assms(2)
proof (induction l)
  case Nil
  then show ?case by (simp add: line_bullet_def)
next
  case (Cons c cs)
  show ?case
  proof (cases "prefix (ascii ''- '' @ p) (c # cs)")
    case True
    then obtain r where r: "c # cs = (ascii ''- '' @ p) @ r" by (auto simp: prefix_def)
    have d: "drop (2 + length p) (c # cs) = r"
      using r bullet_length [of p] by (metis append_eq_conv_conj)
    have nr: "nl \<notin> set r" using Cons.prems r by (metis Un_iff set_append)
    have d2: "drop 2 (c # cs) = p @ r" using r by (simp add: ascii_def)
    have "findall_bullets p (c # cs)
            = (p @ takeWhile (\<lambda>x. x \<noteq> nl) r)
              # findall_bullets p (drop 1 (dropWhile (\<lambda>x. x \<noteq> nl) r))"
      by (rule findall_at_bullet [OF True d])
    then have "findall_bullets p (c # cs) = [p @ r]"
      by (simp add: takeWhile_line [OF nr] dropWhile_line [OF nr])
    moreover have "line_bullet p (c # cs) = [drop 2 (c # cs)]"
      using True by (simp add: line_bullet_def del: drop_Suc_Cons)
    ultimately show ?thesis by (simp only: d2)
  next
    case False
    with Cons show ?thesis by (simp add: line_bullet_def)
  qed
qed

lemma findall_append_line:
  assumes "nl \<notin> set p" "nl \<notin> set l"
  shows "findall_bullets p (l @ nl # r) = findall_bullets p l @ findall_bullets p r"
  using assms(2)
proof (induction l)
  case Nil
  have "\<not> prefix (ascii ''- '' @ p) (nl # r)" by (simp add: ascii_def nl_def)
  then show ?case by simp
next
  case (Cons c cs)
  have pre: "prefix (ascii ''- '' @ p) ((c # cs) @ nl # r) \<longleftrightarrow> prefix (ascii ''- '' @ p) (c # cs)"
    using prefix_before_nl [OF bullet_no_nl [OF assms(1)] Cons.prems] .
  show ?case
  proof (cases "prefix (ascii ''- '' @ p) (c # cs)")
    case True
    then obtain u where u: "c # cs = (ascii ''- '' @ p) @ u" by (auto simp: prefix_def)
    have d: "drop (2 + length p) (c # cs) = u"
      using u bullet_length [of p] by (metis append_eq_conv_conj)
    have d': "drop (2 + length p) ((c # cs) @ nl # r) = u @ nl # r"
      using u bullet_length [of p] by (metis append.assoc append_eq_conv_conj)
    have nu: "nl \<notin> set u" using Cons.prems u by (metis Un_iff set_append)
    have True': "prefix (ascii ''- '' @ p) ((c # cs) @ nl # r)" using True pre by simp
    have "findall_bullets p (c # cs)
            = (p @ takeWhile (\<lambda>x. x \<noteq> nl) u)
              # findall_bullets p (drop 1 (dropWhile (\<lambda>x. x \<noteq> nl) u))"
      by (rule findall_at_bullet [OF True d])
    then have l: "findall_bullets p (c # cs) = [p @ u]"
      by (simp add: takeWhile_line [OF nu] dropWhile_line [OF nu])
    have "findall_bullets p ((c # cs) @ nl # r)
            = (p @ takeWhile (\<lambda>x. x \<noteq> nl) (u @ nl # r))
              # findall_bullets p (drop 1 (dropWhile (\<lambda>x. x \<noteq> nl) (u @ nl # r)))"
      by (rule findall_at_bullet [OF True' d'])
    then have "findall_bullets p ((c # cs) @ nl # r) = (p @ u) # findall_bullets p r"
      by (simp add: takeWhile_line_nl [OF nu] dropWhile_line_nl [OF nu])
    with l show ?thesis by (simp only: append.simps)
  next
    case False
    with pre Cons show ?thesis by simp
  qed
qed

lemma findall_by_lines:
  assumes "nl \<notin> set p"
  shows "findall_bullets p s = concat (map (line_bullet p) (split_lines s))"
proof (induction s rule: length_induct)
  case (1 s)
  show ?case
  proof (cases "nl \<in> set s")
    case False
    then show ?thesis by (simp add: split_lines_no_nl findall_line [OF assms])
  next
    case True
    then obtain l r where s: "s = l @ nl # r" and l: "nl \<notin> set l"
      by (meson split_list_first)
    have "length r < length s" using s by simp
    with 1 have "findall_bullets p r = concat (map (line_bullet p) (split_lines r))" by blast
    then show ?thesis
      using s l by (simp add: findall_append_line [OF assms] split_lines_append findall_line [OF assms])
  qed
qed

lemma first_at_prefix: "prefix q l \<Longrightarrow> l \<noteq> [] \<Longrightarrow> first_at q l = Some l"
  by (cases l) simp_all

lemma first_at_absent: "\<not> sublist q l \<Longrightarrow> first_at q l = None"
  by (induction l) (auto simp: sublist_Cons_right)

lemma line_bullet_at_start:
  assumes "sublist (ascii ''- '' @ p) l \<longrightarrow> prefix (ascii ''- '' @ p) l"
  shows "line_bullet p l = (if prefix (ascii ''- '' @ p) l then [drop 2 l] else [])"
proof (cases "prefix (ascii ''- '' @ p) l")
  case True
  then have "l \<noteq> []" by (auto simp: ascii_def)
  with True show ?thesis by (simp add: line_bullet_def first_at_prefix)
next
  case False
  with assms have "\<not> sublist (ascii ''- '' @ p) l" by blast
  with False show ?thesis by (simp add: line_bullet_def first_at_absent)
qed

lemma concat_map_if:
  "(\<forall>l\<in>set ls. f l = (if P l then [g l] else [])) \<Longrightarrow> concat (map f ls) = map g (filter P ls)"
  by (induction ls) simp_all

lemma line_bullets_at_start:
  assumes "\<forall>l\<in>set ls. sublist (ascii ''- '' @ p) l \<longrightarrow> prefix (ascii ''- '' @ p) l"
  shows "concat (map (line_bullet p) ls) = map (drop 2) (filter (prefix (ascii ''- '' @ p)) ls)"
proof (rule concat_map_if)
  show "\<forall>l\<in>set ls. line_bullet p l = (if prefix (ascii ''- '' @ p) l then [drop 2 l] else [])"
    using assms line_bullet_at_start by blast
qed

lemma bullet_As_a: "ascii ''- '' @ ascii ''As a'' = ascii ''- As a''"
  by (simp add: ascii_def)

lemma As_a_no_nl: "nl \<notin> set (ascii ''As a'')"
  by (simp add: ascii_def nl_def)

text \<open>The example of the specification, whatever follows the next heading.\<close>

lemma spec_example_stories:
  "user_stories (prd_response (spec_example @ rest)) = [story_tester, story_user]"
  by (simp add: spec_example_def story_tester_def story_user_def eval_text eval_prd)

lemma spec_example_match: "stories_match (spec_example @ ascii ''...'') = Some spec_example_block"
  by (simp add: spec_example_def spec_example_block_def story_tester_def story_user_def
        eval_text eval_prd)

lemma spec_example_lines:
  "split_lines spec_example_block = [[], ascii ''- '' @ story_tester, ascii ''- '' @ story_user, []]"
  by (simp add: spec_example_block_def story_tester_def story_user_def eval_text)

lemma spec_example_bullets_at_start:
  "\<forall>l\<in>set (split_lines spec_example_block).
      sublist (ascii ''- As a'') l \<longrightarrow> prefix (ascii ''- As a'') l"
proof -
  have p1: "prefix (ascii ''- As a'') (ascii ''- '' @ story_tester)"
    by (simp add: story_tester_def ascii_def)
  have p2: "prefix (ascii ''- As a'') (ascii ''- '' @ story_user)"
    by (simp add: story_user_def ascii_def)
  have n: "\<not> sublist (ascii ''- As a'') []"
    by (simp add: ascii_def)
  show ?thesis
    unfolding spec_example_lines list.set using p1 p2 n by blast
qed

lemma undecorated_no_stories_heading: "\<not> sublist hdr_user_stories undecorated"
  by (simp add: undecorated_def story_tester_def story_user_def eval_text hdr_user_stories_def
        sublist_Cons_right)

lemma undecorated_no_metrics_heading: "\<not> sublist hdr_success_metrics undecorated"
  by (simp add: undecorated_def story_tester_def story_user_def eval_text hdr_success_metrics_def
        sublist_Cons_right)

lemma undecorated_no_timeline_heading: "\<not> sublist hdr_timeline undecorated"
  by (simp add: undecorated_def story_tester_def story_user_def eval_text hdr_timeline_def
        sublist_Cons_right)

lemma undecorated_no_risks_heading: "\<not> sublist hdr_risks undecorated"
  by (simp add: undecorated_def story_tester_def story_user_def eval_text hdr_risks_def
        sublist_Cons_right)






section \<open>The claims\<close>

text \<open>
  C5. The list fields \<open>user_stories\<close>, \<open>success_metrics\<close> and \<open>risks\<close> of the PRD
  response hold at most five entries for every completion text; when more than five
  entries were extracted, the field is the first five of them in source order.
\<close>

theorem lists_at_most_five:
  "length (user_stories (prd_response t)) \<le> 5
   \<and> length (success_metrics (prd_response t)) \<le> 5
   \<and> length (risks (prd_response t)) \<le> 5
   \<and> (5 < length (parsed_user_stories t)
        \<longrightarrow> user_stories (prd_response t) = take 5 (parsed_user_stories t))
   \<and> (5 < length (parsed_success_metrics t)
        \<longrightarrow> success_metrics (prd_response t) = take 5 (parsed_success_metrics t))
   \<and> (5 < length (parsed_risks t)
        \<longrightarrow> risks (prd_response t) = take 5 (parsed_risks t))"
  by (auto simp: prd_response_def first5_or_def default_user_stories_def
        default_success_metrics_def default_risks_def)

theorem lists_at_most_five_witness:
  "5 < length (parsed_user_stories six_of_each)
   \<and> user_stories (prd_response six_of_each)
       = [ascii ''As a1'', ascii ''As a2'', ascii ''As a3'', ascii ''As a4'', ascii ''As a5'']
   \<and> 5 < length (parsed_success_metrics six_of_each)
   \<and> success_metrics (prd_response six_of_each)
       = [ascii ''m1'', ascii ''m2'', ascii ''m3'', ascii ''m4'', ascii ''m5'']
   \<and> 5 < length (parsed_risks six_of_each)
   \<and> risks (prd_response six_of_each)
       = [ascii ''r1'', ascii ''r2'', ascii ''r3'', ascii ''r4'', ascii ''r5'']"
  using lists_at_most_five [of six_of_each]
  by (simp add: six_stories six_metrics six_risks)

text \<open>
  C6. When the ``Code Examples'' block \<open>b\<close> is found, \<open>code_examples\<close> has exactly two
  entries: the requested language with the first 500 characters of \<open>b\<close>, and
  \<open>JavaScript\<close> with the characters 500 to 999 of \<open>b\<close> when \<open>b\<close> is longer than 500
  characters and with all of \<open>b\<close> otherwise. For a block of exactly 400 characters the
  code of the second entry is the whole block.
\<close>

theorem code_examples_two_slices:
  "examples_match response_text = Some b \<Longrightarrow>
     code_examples (api_response lang response_text)
       = [ [(''language'', lang), (''code'', map (nth b) [0..<min 500 (length b)])],
           [(''language'', ascii ''JavaScript''),
            (''code'', if 500 < length b then map (nth b) [500..<min 1000 (length b)] else b)] ]
     \<and> (length b = 400 \<longrightarrow>
           map_of (code_examples (api_response lang response_text) ! 1) ''code'' = Some b)"
  using slice_nth [of 500 0 b] slice_nth [of 500 500 b]
  by (simp add: api_response_def parsed_code_examples_def)

theorem code_examples_two_slices_witness:
  "examples_match (hdr_code_examples @ block_400) = Some block_400
   \<and> length block_400 = 400
   \<and> code_examples (api_response (ascii ''Python'') (hdr_code_examples @ block_400))
       = [ [(''language'', ascii ''Python''), (''code'', block_400)],
           [(''language'', ascii ''JavaScript''), (''code'', block_400)] ]"
proof -
  have nonl: "nl \<notin> set block_400" by (simp add: block_400_def nl_def)
  have m: "examples_match (hdr_code_examples @ block_400) = Some block_400"
    unfolding examples_match_def
    by (rule re_search_here) (simp_all add: hdr_code_examples_def lazy_until_dollar_all nonl)
  have len: "length block_400 = 400" by (simp add: block_400_def)
  have all: "map (nth block_400) [0..<400] = block_400"
    using map_nth [of block_400] by (simp add: len)
  show ?thesis
    using code_examples_two_slices [OF m, of "ascii ''Python''"] m len all
    by simp
qed

text \<open>
  C8. \<open>generate_prd\<close> raises the HTTP 400 exactly when \<open>feature_idea\<close> is empty or all
  whitespace, and \<open>generate_api_docs\<close> exactly when \<open>code\<close> is; no other field of the
  request and nothing about the completion has a part in it.
\<close>

theorem validation_400_iff:
  "((\<exists>d. generate_prd upstream request = Inl (HTTPException 400 d))
      \<longleftrightarrow> list_all isspace (feature_idea request))
   \<and> ((\<exists>d. generate_api_docs upstream' request' = Inl (HTTPException 400 d))
      \<longleftrightarrow> list_all isspace (code request'))"
  by (cases upstream; cases upstream')
     (simp_all add: generate_prd_def generate_api_docs_def strip_eq_Nil_iff)

theorem validation_400_iff_witness:
  "(\<exists>d. generate_prd (Replied []) \<lparr>feature_idea = ascii '' '' @ [nl], target_audience = ascii ''devs'',
        problem_statement = []\<rparr> = Inl (HTTPException 400 d))
   \<and> \<not> (\<exists>d. generate_prd (Replied []) \<lparr>feature_idea = ascii ''dark mode'', target_audience = ascii ''  '',
        problem_statement = []\<rparr> = Inl (HTTPException 400 d))
   \<and> (\<exists>d. generate_api_docs (Replied []) \<lparr>code = [], language = ascii ''Python'',
        project_name = ascii ''My API''\<rparr> = Inl (HTTPException 400 d))
   \<and> \<not> (\<exists>d. generate_api_docs (Replied []) \<lparr>code = ascii ''x = 1'', language = ascii '' '',
        project_name = [nl]\<rparr> = Inl (HTTPException 400 d))"
  using validation_400_iff [of "Replied []" "\<lparr>feature_idea = ascii '' '' @ [nl], target_audience = ascii ''devs'',
        problem_statement = []\<rparr>" "Replied []" "\<lparr>code = [], language = ascii ''Python'',
        project_name = ascii ''My API''\<rparr>"]
    validation_400_iff [of "Replied []" "\<lparr>feature_idea = ascii ''dark mode'', target_audience = ascii ''  '',
        problem_statement = []\<rparr>" "Replied []" "\<lparr>code = ascii ''x = 1'', language = ascii '' '',
        project_name = [nl]\<rparr>"]
  by (simp add: eval_text)


text \<open>
  C10. In the API documentation pipeline the defaults of \<open>markdown_docs\<close> and
  \<open>openapi_spec\<close> are used also when the heading is found and its block is all
  whitespace: the block strips to the empty text, which the response replaces.
\<close>

theorem whitespace_block_defaults:
  "(markdown_match response_text = Some b \<and> strip b = []
      \<longrightarrow> markdown_docs (api_response lang response_text) = default_markdown_docs)
   \<and> (openapi_match response_text = Some b' \<and> strip b' = []
      \<longrightarrow> openapi_spec (api_response lang response_text) = default_openapi_spec)"
  by (simp add: api_response_def parsed_markdown_docs_def parsed_openapi_spec_def)

theorem whitespace_block_defaults_witness:
  "markdown_match blank_sections = Some (ascii ''  '' @ [nl]) \<and> strip (ascii ''  '' @ [nl]) = []
   \<and> markdown_docs (api_response (ascii ''Python'') blank_sections) = default_markdown_docs
   \<and> openapi_match blank_sections = Some (ascii '' '' @ [nl, nl]) \<and> strip (ascii '' '' @ [nl, nl]) = []
   \<and> openapi_spec (api_response (ascii ''Python'') blank_sections) = default_openapi_spec"
proof -
  have m: "markdown_match blank_sections = Some (ascii ''  '' @ [nl])"
    by (simp add: blank_sections_def eval_text eval_api)
  have o: "openapi_match blank_sections = Some (ascii '' '' @ [nl, nl])"
    by (simp add: blank_sections_def eval_text eval_api)
  have s1: "strip (ascii ''  '' @ [nl]) = []" by (simp add: eval_text)
  have s2: "strip (ascii '' '' @ [nl, nl]) = []" by (simp add: eval_text)
  show ?thesis
    using whitespace_block_defaults [of blank_sections "ascii ''  '' @ [nl]" "ascii ''Python''"
        "ascii '' '' @ [nl, nl]"] m o s1 s2
    by simp
qed



text \<open>
  C2. A section that is the last content of the text should still be extracted, its
  block ending at the end of the text. In the PRD pipeline it is not: with ``Risks''
  last, the timeline before it (closed by the separator) is extracted and the risks are
  replaced by the default, although the same text followed by a backslash and a Z
  yields them. The API documentation pipeline, whose patterns end in \<^verbatim>\<open>$\<close>, does
  extract a last section.
\<close>

theorem last_section_not_extracted:
  "timeline (prd_response last_section) = ascii ''3 weeks''
   \<and> risks_match last_section = None
   \<and> risks (prd_response last_section) = default_risks
   \<and> risks (prd_response (last_section @ backslash_Z)) = [ascii ''Scope creep'']
   \<and> openapi_match (hdr_openapi_spec @ ascii ''{}'') = Some (ascii ''{}'')"
  by (simp add: last_section_def eval_text eval_prd eval_api)

text \<open>
  C3, as amended. A block is located only where the text contains the heading exactly
  as the pattern spells it: \<^verbatim>\<open>## \<close>, the emoji (with its variation selector where the
  pattern has one), a space and the heading words. A text that does not contain that
  sequence gets the fallback for the field.
\<close>

theorem headings_match_exactly:
  "(\<not> sublist hdr_user_stories t \<longrightarrow> user_stories (prd_response t) = default_user_stories)
   \<and> (\<not> sublist hdr_success_metrics t
        \<longrightarrow> success_metrics (prd_response t) = default_success_metrics)
   \<and> (\<not> sublist hdr_timeline t \<longrightarrow> timeline (prd_response t) = ascii ''2-4 weeks'')
   \<and> (\<not> sublist hdr_risks t \<longrightarrow> risks (prd_response t) = default_risks)"
  by (simp add: prd_response_def first5_or_def parsed_user_stories_def parsed_success_metrics_def
        parsed_timeline_def parsed_risks_def stories_match_def metrics_match_def
        timeline_match_def risks_match_def re_search_absent)

theorem headings_match_exactly_witness:
  "\<not> sublist hdr_user_stories undecorated
   \<and> user_stories (prd_response undecorated) = default_user_stories
   \<and> \<not> sublist hdr_success_metrics undecorated
   \<and> success_metrics (prd_response undecorated) = default_success_metrics
   \<and> \<not> sublist hdr_timeline undecorated
   \<and> timeline (prd_response undecorated) = ascii ''2-4 weeks''
   \<and> \<not> sublist hdr_risks undecorated
   \<and> risks (prd_response undecorated) = default_risks"
  using headings_match_exactly [of undecorated]
    undecorated_no_stories_heading undecorated_no_metrics_heading
    undecorated_no_timeline_heading undecorated_no_risks_heading
  by blast

text \<open>
  The claim as stated fails: the headings ``User Stories'' and ``Timeline'' written
  without their emoji are not recognised, and the stories and the timeline under them
  are replaced by the fallbacks.
\<close>

theorem undecorated_heading_counterexample:
  "user_stories (prd_response undecorated) = default_user_stories
   \<and> user_stories (prd_response undecorated) \<noteq> [story_tester, story_user]
   \<and> timeline (prd_response undecorated) = ascii ''2-4 weeks''
   \<and> timeline (prd_response undecorated) \<noteq> ascii ''3 weeks''"
  by (simp add: undecorated_def story_tester_def story_user_def eval_text eval_prd)

text \<open>
  C4, as amended. When the ``User Stories'' block \<open>b\<close> is located, the extracted stories
  are, line by line and in order, the rest of each line of \<open>b\<close> from behind the first
  bullet marker that is followed by \<^verbatim>\<open>As a\<close>, wherever in the line that marker stands,
  trimmed, empty ones dropped; the response keeps the first five of them, or the
  fallback when there are none. When every such marker stands at the beginning of its
  line, these are the lines of the specification's reading. The example of the
  specification yields its two stories, whatever follows the next heading.
\<close>

theorem user_stories_by_line:
  "(stories_match t = Some b \<longrightarrow>
      parsed_user_stories t
        = strip_nonempty (concat (map (line_bullet (ascii ''As a'')) (split_lines b)))
      \<and> user_stories (prd_response t) = first5_or (parsed_user_stories t) default_user_stories
      \<and> ((\<forall>l\<in>set (split_lines b). sublist (ascii ''- As a'') l \<longrightarrow> prefix (ascii ''- As a'') l)
           \<longrightarrow> parsed_user_stories t = spec_story_lines b))
   \<and> user_stories (prd_response (spec_example @ rest)) = [story_tester, story_user]"
proof (intro conjI impI)
  assume m: "stories_match t = Some b"
  show p: "parsed_user_stories t
        = strip_nonempty (concat (map (line_bullet (ascii ''As a'')) (split_lines b)))"
    using m by (simp add: parsed_user_stories_def findall_by_lines [OF As_a_no_nl])
  show "user_stories (prd_response t) = first5_or (parsed_user_stories t) default_user_stories"
    by (simp add: prd_response_def)
  assume "\<forall>l\<in>set (split_lines b). sublist (ascii ''- As a'') l \<longrightarrow> prefix (ascii ''- As a'') l"
  then have "concat (map (line_bullet (ascii ''As a'')) (split_lines b))
        = map (drop 2) (filter (prefix (ascii ''- As a'')) (split_lines b))"
    using line_bullets_at_start [of "split_lines b" "ascii ''As a''"] by (simp only: bullet_As_a)
  with p show "parsed_user_stories t = spec_story_lines b"
    by (simp only: spec_story_lines_def)
next
  show "user_stories (prd_response (spec_example @ rest)) = [story_tester, story_user]"
    by (rule spec_example_stories)
qed

theorem user_stories_by_line_witness:
  "stories_match (spec_example @ ascii ''...'') = Some spec_example_block
   \<and> split_lines spec_example_block
       = [[], ascii ''- '' @ story_tester, ascii ''- '' @ story_user, []]
   \<and> prefix (ascii ''- As a'') (ascii ''- '' @ story_tester)
   \<and> prefix (ascii ''- As a'') (ascii ''- '' @ story_user)
   \<and> \<not> sublist (ascii ''- As a'') []
   \<and> parsed_user_stories (spec_example @ ascii ''...'') = spec_story_lines spec_example_block
   \<and> user_stories (prd_response (spec_example @ ascii ''...'')) = [story_tester, story_user]"
proof -
  have p1: "prefix (ascii ''- As a'') (ascii ''- '' @ story_tester)"
    by (simp add: story_tester_def ascii_def)
  have p2: "prefix (ascii ''- As a'') (ascii ''- '' @ story_user)"
    by (simp add: story_user_def ascii_def)
  have n: "\<not> sublist (ascii ''- As a'') []"
    by (simp add: ascii_def)
  show ?thesis
    using user_stories_by_line [of "spec_example @ ascii ''...''" spec_example_block "ascii ''...''"]
      spec_example_match spec_example_bullets_at_start spec_example_lines p1 p2 n
    by blast
qed

text \<open>
  The claim as stated fails: a block with no line that begins with a bullet marker,
  but with one in the middle of a line, yields a story.
\<close>

theorem midline_bullet_counterexample:
  "stories_match midline_bullet = Some ([nl] @ ascii ''Note - As a rule, keep it short'' @ [nl])
   \<and> spec_story_lines ([nl] @ ascii ''Note - As a rule, keep it short'' @ [nl]) = []
   \<and> user_stories (prd_response midline_bullet) = [ascii ''As a rule, keep it short'']"
  by (simp add: midline_bullet_def spec_story_lines_def eval_text eval_prd)

text \<open>
  C7. With the ``Timeline'' heading present the timeline should be the trimmed body of
  its block. When the section is the last content of the text it is not: the heading
  line is there, no match is found and the timeline is the fallback \<^verbatim>\<open>2-4 weeks\<close>; the
  same text followed by a separator yields \<^verbatim>\<open>3 weeks\<close>.
\<close>

theorem timeline_last_not_extracted:
  "timeline_match timeline_last = None
   \<and> timeline (prd_response timeline_last) = ascii ''2-4 weeks''
   \<and> timeline (prd_response (timeline_last @ [nl] @ ascii ''---'')) = ascii ''3 weeks''"
  by (simp add: timeline_last_def eval_text eval_prd)

end
